theory Spec2Isabelle
  imports Main "HOL-Library.Product_Lexorder" "HOL-Library.Multiset"
begin

section \<open>Timestamps\<close>

text \<open>
  A naive Python \<open>datetime\<close>, as \<open>datetime.utcnow()\<close> returns it: seven fields, compared
  field by field from the year down to the microsecond.
\<close>

record datetime =
  year :: nat
  month :: nat
  day :: nat
  hour :: nat
  minute :: nat
  second :: nat
  microsecond :: nat

definition dt_key :: "datetime \<Rightarrow> nat \<times> nat \<times> nat \<times> nat \<times> nat \<times> nat \<times> nat" where
  "dt_key d = (year d, month d, day d, hour d, minute d, second d, microsecond d)"

definition dt_le :: "datetime \<Rightarrow> datetime \<Rightarrow> bool" where
  "dt_le a b = (dt_key a \<le> dt_key b)"

text \<open>
  \<open>zfill w n\<close> prints the last \<open>w\<close> decimal digits of \<open>n\<close>, padded with zeros: the
  \<open>%0wd\<close> of \<open>isoformat\<close> for a field that fits its width, as every field of a Python
  datetime does (the year is at most 9999).
\<close>

fun zfill :: "nat \<Rightarrow> nat \<Rightarrow> string" where
  "zfill 0 n = []"
| "zfill (Suc w) n = zfill w (n div 10) @ [''0123456789'' ! (n mod 10)]"

definition isoformat :: "datetime \<Rightarrow> string" where
  "isoformat d =
     zfill 4 (year d) @ ''-'' @ zfill 2 (month d) @ ''-'' @ zfill 2 (day d) @ ''T'' @
     zfill 2 (hour d) @ '':'' @ zfill 2 (minute d) @ '':'' @ zfill 2 (second d) @
     (if microsecond d = 0 then [] else ''.'' @ zfill 6 (microsecond d))"

section \<open>The models of app/models.py\<close>

text \<open>
  The persistent model \<open>Todo\<close>. Its primary key is \<open>Optional[int]\<close>: \<open>None\<close> until the
  row has been inserted. The field \<open>id\<close> is called \<open>todo_id\<close> here, \<open>id\<close> being the
  identity function of HOL.
\<close>

record Todo =
  todo_id :: "int option"
  title :: string
  description :: string
  completed :: bool
  created_at :: datetime
  updated_at :: datetime

text \<open>
  The request and response schemas. Their fields carry a prefix (\<open>tc_\<close>, \<open>tu_\<close>,
  \<open>r_\<close>), since the four classes share their field names. An \<open>Optional\<close> field of
  \<open>TodoUpdate\<close> is an option: \<open>None\<close> is the field left out.
\<close>

record TodoCreate =
  tc_title :: string
  tc_description :: string

record TodoUpdate =
  tu_title :: "string option"
  tu_description :: "string option"
  tu_completed :: "bool option"

record TodoResponse =
  r_id :: int
  r_title :: string
  r_description :: string
  r_completed :: bool
  r_created_at :: string
  r_updated_at :: string

datatype error = ValidationError

text \<open>
  \<open>TodoCreate\<close> and \<open>TodoUpdate\<close> are declared with \<open>table=False\<close>, so building one
  validates its fields: \<open>Field(max_length=200)\<close> on the title and
  \<open>Field(max_length=1000)\<close> on the description. Nothing else is checked: there is no
  minimum length and nothing is trimmed.
\<close>

definition new_TodoCreate :: "string \<Rightarrow> string \<Rightarrow> error + TodoCreate" where
  "new_TodoCreate t d =
     (if length t > 200 then Inl ValidationError
      else if length d > 1000 then Inl ValidationError
      else Inr \<lparr>tc_title = t, tc_description = d\<rparr>)"

definition new_TodoUpdate ::
  "string option \<Rightarrow> string option \<Rightarrow> bool option \<Rightarrow> error + TodoUpdate" where
  "new_TodoUpdate t d c =
     (if (case t of None \<Rightarrow> False | Some x \<Rightarrow> length x > 200) then Inl ValidationError
      else if (case d of None \<Rightarrow> False | Some x \<Rightarrow> length x > 1000) then Inl ValidationError
      else Inr \<lparr>tu_title = t, tu_description = d, tu_completed = c\<rparr>)"

text \<open>\<open>TodoResponse.from_todo\<close>; \<open>todo.id or 0\<close> is 0 for \<open>None\<close> and for 0.\<close>

definition from_todo :: "Todo \<Rightarrow> TodoResponse" where
  "from_todo todo =
     \<lparr>r_id = (case todo_id todo of None \<Rightarrow> 0 | Some i \<Rightarrow> if i = 0 then 0 else i),
      r_title = title todo,
      r_description = description todo,
      r_completed = completed todo,
      r_created_at = isoformat (created_at todo),
      r_updated_at = isoformat (updated_at todo)\<rparr>"

section \<open>The storage layer\<close>

text \<open>
  Modelled from the spec: the storage layer (\<open>app/database.py\<close> with \<open>get_session\<close>, and
  the database behind it) is not among the sources. The spec gives its contract: one
  table of todo records keyed by an integer identifier, which the storage layer assigns
  on insertion, positive and never reused; a point lookup that answers "absent" for a
  missing id; an update in place; a delete by id. The table is the list of its rows in
  insertion order, with the next identifier to hand out.
\<close>

record store =
  rows :: "Todo list"
  next_id :: int

definition empty_store :: store where
  "empty_store = \<lparr>rows = [], next_id = 1\<rparr>"

definition session_get :: "store \<Rightarrow> int \<Rightarrow> Todo option" where
  "session_get s i = find (\<lambda>t. todo_id t = Some i) (rows s)"

text \<open>\<open>session.add\<close>, \<open>commit\<close> and \<open>refresh\<close> of an object that has no id yet.\<close>

definition session_insert :: "store \<Rightarrow> Todo \<Rightarrow> Todo \<times> store" where
  "session_insert s todo =
     (let todo' = todo\<lparr>todo_id := Some (next_id s)\<rparr>
      in (todo', s\<lparr>rows := rows s @ [todo'], next_id := next_id s + 1\<rparr>))"

text \<open>\<open>session.add\<close>, \<open>commit\<close> and \<open>refresh\<close> of an object loaded from the table.\<close>

definition session_update :: "store \<Rightarrow> Todo \<Rightarrow> Todo \<times> store" where
  "session_update s todo =
     (todo, s\<lparr>rows := map (\<lambda>u. if todo_id u = todo_id todo then todo else u) (rows s)\<rparr>)"

definition session_delete :: "store \<Rightarrow> Todo \<Rightarrow> store" where
  "session_delete s todo = s\<lparr>rows := filter (\<lambda>u. todo_id u \<noteq> todo_id todo) (rows s)\<rparr>"

text \<open>
  What is kept of a table by these operations: every row has an identifier, positive and
  below the next one to hand out, and no two rows share theirs.
\<close>

definition store_ok :: "store \<Rightarrow> bool" where
  "store_ok s =
     (list_all (\<lambda>t. case todo_id t of None \<Rightarrow> False | Some i \<Rightarrow> 0 < i \<and> i < next_id s) (rows s)
      \<and> distinct (map todo_id (rows s)) \<and> 0 < next_id s)"

text \<open>
  The query of \<open>get_all_todos\<close> is \<open>select(Todo).order_by(desc(Todo.created_at))\<close>: the
  rows of the table, sorted by \<open>created_at\<close>, descending. It names no second key, so
  which of two rows with the same \<open>created_at\<close> comes first is the engine's choice. That
  choice is the one parameter of the model: a rank \<open>tie\<close> that the engine gives each
  row. \<open>order_by_desc_created_at\<close> sorts the rows by \<open>created_at\<close> and, among rows of
  equal \<open>created_at\<close>, by that rank, and reverses the result: the rows descend in
  \<open>created_at\<close>, and rows of equal \<open>created_at\<close> descend in rank.
\<close>

definition order_by_desc_created_at :: "(Todo \<Rightarrow> int) \<Rightarrow> Todo list \<Rightarrow> Todo list" where
  "order_by_desc_created_at tie ts = rev (sort_key (\<lambda>t. (dt_key (created_at t), tie t)) ts)"

definition descending :: "Todo list \<Rightarrow> bool" where
  "descending ts = sorted_wrt (\<lambda>a b. dt_le (created_at b) (created_at a)) ts"

text \<open>
  The rank of an engine that returns rows of equal \<open>created_at\<close> in the order of their
  ids, oldest first, as a scan of the table in insertion order does.
\<close>

definition scan_rank :: "Todo \<Rightarrow> int" where
  "scan_rank t = (case todo_id t of None \<Rightarrow> 0 | Some i \<Rightarrow> - i)"

text \<open>
  The rank that numbers the rows along a given order \<open>ts\<close> of them, the first row
  highest: under it the query returns \<open>ts\<close>, if \<open>ts\<close> descends in \<open>created_at\<close>.
\<close>

definition rank_in :: "Todo list \<Rightarrow> Todo \<Rightarrow> int" where
  "rank_in ts t = int (length (dropWhile (\<lambda>u. u \<noteq> t) ts))"

section \<open>The service of app/todo\_service.py\<close>

text \<open>
  Every method opens a session, works on the table and returns; the model takes the
  table and returns it with the result. \<open>datetime.utcnow()\<close> reads the system clock:
  each reading is an argument of the model, in the order the method takes them.
\<close>

definition get_all_todos :: "(Todo \<Rightarrow> int) \<Rightarrow> store \<Rightarrow> TodoResponse list" where
  "get_all_todos tie s = map from_todo (order_by_desc_created_at tie (rows s))"

definition get_todo_by_id :: "int \<Rightarrow> store \<Rightarrow> TodoResponse option" where
  "get_todo_by_id i s =
     (case session_get s i of
        None \<Rightarrow> None
      | Some todo \<Rightarrow> Some (from_todo todo))"

text \<open>\<open>create_todo\<close> reads the clock twice: once for \<open>created_at\<close>, then for \<open>updated_at\<close>.\<close>

definition create_todo ::
  "TodoCreate \<Rightarrow> datetime \<Rightarrow> datetime \<Rightarrow> store \<Rightarrow> TodoResponse \<times> store" where
  "create_todo todo_data now1 now2 s =
     (let todo = \<lparr>todo_id = None,
                  title = tc_title todo_data,
                  description = tc_description todo_data,
                  completed = False,
                  created_at = now1,
                  updated_at = now2\<rparr>;
          (todo', s') = session_insert s todo
      in (from_todo todo', s'))"

definition apply_update :: "TodoUpdate \<Rightarrow> datetime \<Rightarrow> Todo \<Rightarrow> Todo" where
  "apply_update todo_data now todo =
     (let todo1 = (case tu_title todo_data of None \<Rightarrow> todo | Some x \<Rightarrow> todo\<lparr>title := x\<rparr>);
          todo2 = (case tu_description todo_data of
                     None \<Rightarrow> todo1 | Some x \<Rightarrow> todo1\<lparr>description := x\<rparr>);
          todo3 = (case tu_completed todo_data of
                     None \<Rightarrow> todo2 | Some x \<Rightarrow> todo2\<lparr>completed := x\<rparr>)
      in todo3\<lparr>updated_at := now\<rparr>)"

definition update_todo ::
  "int \<Rightarrow> TodoUpdate \<Rightarrow> datetime \<Rightarrow> store \<Rightarrow> TodoResponse option \<times> store" where
  "update_todo i todo_data now s =
     (case session_get s i of
        None \<Rightarrow> (None, s)
      | Some todo \<Rightarrow>
          (let (todo', s') = session_update s (apply_update todo_data now todo)
           in (Some (from_todo todo'), s')))"

definition toggle_todo_completion ::
  "int \<Rightarrow> datetime \<Rightarrow> store \<Rightarrow> TodoResponse option \<times> store" where
  "toggle_todo_completion i now s =
     (case session_get s i of
        None \<Rightarrow> (None, s)
      | Some todo \<Rightarrow>
          (let (todo', s') =
                 session_update s (todo\<lparr>completed := \<not> completed todo, updated_at := now\<rparr>)
           in (Some (from_todo todo'), s')))"

definition delete_todo :: "int \<Rightarrow> store \<Rightarrow> bool \<times> store" where
  "delete_todo i s =
     (case session_get s i of
        None \<Rightarrow> (False, s)
      | Some todo \<Rightarrow> (True, session_delete s todo))"

text \<open>The statistics are a dictionary from the three names to Python integers.\<close>

definition get_stats :: "store \<Rightarrow> (string \<rightharpoonup> int)" where
  "get_stats s =
     (let all_todos = rows s;
          total = int (length all_todos);
          done = (\<Sum>todo \<leftarrow> filter completed all_todos. 1);
          pending = total - done
      in [''total'' \<mapsto> total, ''completed'' \<mapsto> done, ''pending'' \<mapsto> pending])"

text \<open>
  Every caller builds the request and hands it to the service, as the tests do with
  \<open>TodoService.create_todo(TodoCreate(title=..., description=...))\<close>: a request that
  fails validation raises before the service is entered.
\<close>

definition create ::
  "string \<Rightarrow> string \<Rightarrow> datetime \<Rightarrow> datetime \<Rightarrow> store \<Rightarrow> error + TodoResponse \<times> store" where
  "create t d now1 now2 s =
     (case new_TodoCreate t d of
        Inl e \<Rightarrow> Inl e
      | Inr todo_data \<Rightarrow> Inr (create_todo todo_data now1 now2 s))"

section \<open>The form handler of app/todo\_ui.py\<close>

text \<open>
  \<open>str.strip()\<close> removes the white space at both ends; a character is a code point
  below 256 here, and these are the ones Python counts as white space.
\<close>

definition isspace :: "char \<Rightarrow> bool" where
  "isspace c =
     (let n = (of_char c :: nat)
      in (9 \<le> n \<and> n \<le> 13) \<or> (28 \<le> n \<and> n \<le> 32) \<or> n = 133 \<or> n = 160)"

definition strip :: "string \<Rightarrow> string" where
  "strip x = rev (dropWhile isspace (rev (dropWhile isspace x)))"

text \<open>
  \<open>add_new_todo\<close> trims both inputs, turns a blank title away with a warning, and
  otherwise builds the request and calls the service; an exception becomes a negative
  notification. The model returns the type of the notification and the table.
\<close>

datatype notify_type = warning | positive | negative

definition add_new_todo ::
  "string \<Rightarrow> string \<Rightarrow> datetime \<Rightarrow> datetime \<Rightarrow> store \<Rightarrow> notify_type \<times> store" where
  "add_new_todo title_value description_value now1 now2 s =
     (let title = strip title_value;
          description = strip description_value
      in if title = [] then (warning, s)
         else (case create title description now1 now2 s of
                 Inl e \<Rightarrow> (negative, s)
               | Inr (r, s') \<Rightarrow> (positive, s')))"

section \<open>Runs of the service\<close>

text \<open>
  A reachable table is what a sequence of calls of the four writing methods makes of
  the empty table. A call carries the readings its method takes of the clock.
\<close>

datatype op =
    Create TodoCreate datetime datetime
  | Update int TodoUpdate datetime
  | Toggle int datetime
  | Delete int

fun step :: "op \<Rightarrow> store \<Rightarrow> store" where
  "step (Create todo_data now1 now2) s = snd (create_todo todo_data now1 now2 s)"
| "step (Update i todo_data now) s = snd (update_todo i todo_data now s)"
| "step (Toggle i now) s = snd (toggle_todo_completion i now s)"
| "step (Delete i) s = snd (delete_todo i s)"

fun run :: "op list \<Rightarrow> store \<Rightarrow> store" where
  "run [] s = s"
| "run (x # xs) s = run xs (step x s)"





section \<open>The listing the specification describes\<close>

text \<open>
  The spec's \<open>listAll\<close>: all todos by \<open>created_at\<close> descending, ties broken by insertion
  order, newest first. A stable ascending sort of the rows in insertion order, reversed,
  is that order.
\<close>

definition listAll_spec :: "store \<Rightarrow> TodoResponse list" where
  "listAll_spec s = map from_todo (rev (sort_key (\<lambda>t. dt_key (created_at t)) (rows s)))"

section \<open>Sample data\<close>

definition t_a :: datetime where
  "t_a = \<lparr>year = 2024, month = 1, day = 15, hour = 10, minute = 30, second = 0,
          microsecond = 0\<rparr>"

definition t_b :: datetime where
  "t_b = \<lparr>year = 2024, month = 1, day = 15, hour = 10, minute = 30, second = 0,
          microsecond = 1\<rparr>"

definition t_c :: datetime where
  "t_c = \<lparr>year = 2024, month = 1, day = 15, hour = 10, minute = 30, second = 7,
          microsecond = 250000\<rparr>"

definition todo1 :: Todo where
  "todo1 = \<lparr>todo_id = Some 1, title = ''Original'', description = ''Original desc'',
            completed = False, created_at = t_a, updated_at = t_a\<rparr>"

definition todo2 :: Todo where
  "todo2 = \<lparr>todo_id = Some 2, title = ''Second'', description = [],
            completed = True, created_at = t_a, updated_at = t_b\<rparr>"

definition demo_store :: store where
  "demo_store = \<lparr>rows = [todo1, todo2], next_id = 3\<rparr>"

definition todo2_created :: Todo where
  "todo2_created = \<lparr>todo_id = Some 2, title = ''Second'', description = [],
                    completed = False, created_at = t_a, updated_at = t_a\<rparr>"

definition created_store :: store where
  "created_store = \<lparr>rows = [todo1, todo2_created], next_id = 3\<rparr>"

definition todo3 :: Todo where
  "todo3 = \<lparr>todo_id = Some 3, title = ''Third'', description = [],
            completed = False, created_at = t_c, updated_at = t_c\<rparr>"

definition listing_store :: store where
  "listing_store = \<lparr>rows = [todo1, todo2, todo3], next_id = 4\<rparr>"

section \<open>Statistics\<close>

lemma sum_list_ones: "(\<Sum>x \<leftarrow> xs. (1::int)) = int (length xs)"
  by (induction xs) auto

lemma length_filter_split:
  "int (length xs) = int (length (filter P xs)) + int (length (filter (\<lambda>x. \<not> P x) xs))"
  by (induction xs) auto

text \<open>
  C7. In every state of the table, \<open>get_stats\<close> returns the three counts \<open>total\<close>,
  \<open>completed\<close> and \<open>pending\<close>, taken over all rows: the number of rows, of completed
  rows and of rows not completed, so that \<open>total = completed + pending\<close>; on the empty
  table all three are 0.
\<close>

theorem get_stats_total:
  "(\<exists>t c p. get_stats s = [''total'' \<mapsto> t, ''completed'' \<mapsto> c, ''pending'' \<mapsto> p]
      \<and> t = c + p
      \<and> t = int (length (rows s))
      \<and> c = int (length (filter completed (rows s)))
      \<and> p = int (length (filter (\<lambda>todo. \<not> completed todo) (rows s))))
   \<and> get_stats empty_store = [''total'' \<mapsto> 0, ''completed'' \<mapsto> 0, ''pending'' \<mapsto> 0]"
proof -
  have split: "int (length (rows s)) - int (length (filter completed (rows s)))
      = int (length (filter (\<lambda>todo. \<not> completed todo) (rows s)))"
    using length_filter_split [of "rows s" completed] by simp
  have "get_stats s = [''total'' \<mapsto> int (length (rows s)),
      ''completed'' \<mapsto> int (length (filter completed (rows s))),
      ''pending'' \<mapsto> int (length (filter (\<lambda>todo. \<not> completed todo) (rows s)))]"
    unfolding get_stats_def Let_def sum_list_ones split by (rule refl)
  moreover have "int (length (rows s)) = int (length (filter completed (rows s)))
      + int (length (filter (\<lambda>todo. \<not> completed todo) (rows s)))"
    by (rule length_filter_split)
  moreover have "get_stats empty_store
      = [''total'' \<mapsto> 0, ''completed'' \<mapsto> 0, ''pending'' \<mapsto> 0]"
    by (simp add: get_stats_def empty_store_def)
  ultimately show ?thesis by blast
qed

section \<open>Evaluating timestamps\<close>

lemma zfill_2: "zfill 2 n = [''0123456789'' ! (n div 10 mod 10), ''0123456789'' ! (n mod 10)]"
  by (simp add: numeral_2_eq_2)

lemma zfill_4: "zfill 4 n = zfill 2 (n div 100) @ zfill 2 n"
proof -
  have e: "(4::nat) = Suc (Suc (Suc (Suc 0)))" by simp
  have d: "n div 10 div 10 = n div 100" by (simp add: div_mult2_eq [symmetric])
  show ?thesis unfolding e zfill_2 by (simp add: d)
qed

lemma zfill_6: "zfill 6 n = zfill 4 (n div 100) @ zfill 2 n"
proof -
  have e: "(6::nat) = Suc (Suc (Suc (Suc (Suc (Suc 0)))))" by simp
  have d: "\<And>m::nat. m div 10 div 10 = m div 100" by (simp add: div_mult2_eq [symmetric])
  show ?thesis unfolding e zfill_4 zfill_2 by (simp add: d)
qed

lemmas isoformat_eval = isoformat_def zfill_2 zfill_4 zfill_6

lemmas sample_defs = demo_store_def todo1_def todo2_def empty_store_def

section \<open>Lookups in the table\<close>

lemma find_replaced:
  "find (\<lambda>t. todo_id t = Some i) xs = Some t \<Longrightarrow> todo_id t' = Some i \<Longrightarrow>
   find (\<lambda>t. todo_id t = Some i) (map (\<lambda>u. if todo_id u = Some i then t' else u) xs)
     = Some t'"
  by (induction xs) (auto split: if_splits)

lemma find_not_replaced:
  "todo_id t' = Some i \<Longrightarrow> j \<noteq> i \<Longrightarrow>
   find (\<lambda>t. todo_id t = Some j) (map (\<lambda>u. if todo_id u = Some i then t' else u) xs)
     = find (\<lambda>t. todo_id t = Some j) xs"
  by (induction xs) auto

lemma find_removed:
  "find (\<lambda>t. todo_id t = Some i) (filter (\<lambda>u. todo_id u \<noteq> Some i) xs) = None"
  by (induction xs) auto

lemma find_not_removed:
  "j \<noteq> i \<Longrightarrow>
   find (\<lambda>t. todo_id t = Some j) (filter (\<lambda>u. todo_id u \<noteq> Some i) xs)
     = find (\<lambda>t. todo_id t = Some j) xs"
  by (induction xs) auto

lemma session_get_id: "session_get s i = Some t \<Longrightarrow> todo_id t = Some i"
  unfolding session_get_def by (induction "rows s" arbitrary: s) (auto simp: find_Some_iff)

lemma session_get_None:
  "session_get s i = None \<longleftrightarrow> (\<forall>t \<in> set (rows s). todo_id t \<noteq> Some i)"
  by (auto simp: session_get_def find_None_iff)

lemma apply_update_id [simp]: "todo_id (apply_update u now t) = todo_id t"
  by (simp add: apply_update_def Let_def split: option.splits)

lemma session_update_get:
  assumes "session_get s i = Some t" and "todo_id t' = Some i"
  shows "session_get (snd (session_update s t')) i = Some t'"
  using assms by (simp add: session_get_def session_update_def find_replaced)

lemma session_update_get_other:
  assumes "todo_id t' = Some i" and "j \<noteq> i"
  shows "session_get (snd (session_update s t')) j = session_get s j"
  using assms by (simp add: session_get_def session_update_def find_not_replaced)

lemma session_update_ids:
  assumes "session_get s i = Some t" and "todo_id t' = Some i"
  shows "map todo_id (rows (snd (session_update s t'))) = map todo_id (rows s)"
    and "next_id (snd (session_update s t')) = next_id s"
  using assms by (auto simp: session_update_def)

lemma session_delete_get:
  assumes "todo_id t = Some i"
  shows "session_get (session_delete s t) i = None"
  using assms by (simp add: session_get_def session_delete_def find_removed)

lemma session_delete_get_other:
  assumes "todo_id t = Some i" and "j \<noteq> i"
  shows "session_get (session_delete s t) j = session_get s j"
  using assms by (simp add: session_get_def session_delete_def find_not_removed)

section \<open>Tables of the storage layer\<close>

lemma store_ok_iff:
  "store_ok s \<longleftrightarrow>
     (\<forall>t \<in> set (rows s). \<exists>i. todo_id t = Some i \<and> 0 < i \<and> i < next_id s)
     \<and> distinct (map todo_id (rows s)) \<and> 0 < next_id s"
  by (auto simp: store_ok_def list_all_iff split: option.splits)

lemma store_ok_ids:
  "store_ok s \<longleftrightarrow>
     list_all (\<lambda>k. case k of None \<Rightarrow> False | Some i \<Rightarrow> 0 < i \<and> i < next_id s)
       (map todo_id (rows s))
     \<and> distinct (map todo_id (rows s)) \<and> 0 < next_id s"
  by (auto simp: store_ok_def list_all_iff)

lemma store_ok_empty: "store_ok empty_store"
  by (simp add: store_ok_def empty_store_def)

lemma store_ok_insert:
  assumes "store_ok s"
  shows "store_ok (snd (session_insert s todo))"
proof -
  have "Some (next_id s) \<notin> todo_id ` set (rows s)"
    using assms by (fastforce simp: store_ok_iff)
  then show ?thesis
    using assms by (fastforce simp: store_ok_iff session_insert_def Let_def)
qed

lemma store_ok_update:
  assumes "store_ok s" and "session_get s i = Some t" and "todo_id t' = Some i"
  shows "store_ok (snd (session_update s t'))"
proof -
  note same = session_update_ids [OF assms(2,3)]
  from assms(1) show ?thesis
    unfolding store_ok_ids same .
qed

lemma store_ok_delete:
  assumes "store_ok s"
  shows "store_ok (session_delete s t)"
  using assms by (auto simp: store_ok_iff session_delete_def distinct_map_filter)

lemma store_ok_step: "store_ok s \<Longrightarrow> store_ok (step x s)"
proof (cases x)
  case (Create todo_data now1 now2)
  assume "store_ok s"
  then show ?thesis
    using Create store_ok_insert [of s] by (simp add: create_todo_def split_def Let_def)
next
  case (Update j todo_data now)
  assume ok: "store_ok s"
  show ?thesis
  proof (cases "session_get s j")
    case None
    then show ?thesis using ok Update by (simp add: update_todo_def)
  next
    case (Some t)
    have "todo_id (apply_update todo_data now t) = Some j"
      using session_get_id [OF Some] by simp
    then show ?thesis
      using Update Some store_ok_update [OF ok Some]
      by (simp add: update_todo_def split_def Let_def)
  qed
next
  case (Toggle j now)
  assume ok: "store_ok s"
  show ?thesis
  proof (cases "session_get s j")
    case None
    then show ?thesis using ok Toggle by (simp add: toggle_todo_completion_def)
  next
    case (Some t)
    have "todo_id (t\<lparr>completed := \<not> completed t, updated_at := now\<rparr>) = Some j"
      using session_get_id [OF Some] by simp
    then show ?thesis
      using Toggle Some store_ok_update [OF ok Some]
      by (simp add: toggle_todo_completion_def split_def Let_def)
  qed
next
  case (Delete j)
  assume "store_ok s"
  then show ?thesis
    using Delete store_ok_delete [of s]
    by (simp add: delete_todo_def split: option.splits)
qed

lemma store_ok_run: "store_ok s \<Longrightarrow> store_ok (run ops s)"
  by (induction ops arbitrary: s) (simp_all add: store_ok_step)

lemma from_todo_sel:
  "r_title (from_todo t) = title t"
  "r_description (from_todo t) = description t"
  "r_completed (from_todo t) = completed t"
  "r_created_at (from_todo t) = isoformat (created_at t)"
  "r_updated_at (from_todo t) = isoformat (updated_at t)"
  by (simp_all add: from_todo_def)

section \<open>Not found\<close>

text \<open>
  C10. When no row has the id, \<open>update_todo\<close> and \<open>toggle_todo_completion\<close> return
  \<open>None\<close>, \<open>delete_todo\<close> returns \<open>False\<close>, and each leaves the table as it was.
\<close>

theorem not_found_unchanged:
  assumes "session_get s i = None"
  shows "update_todo i todo_data now s = (None, s)
       \<and> toggle_todo_completion i now s = (None, s)
       \<and> delete_todo i s = (False, s)"
  using assms by (simp add: update_todo_def toggle_todo_completion_def delete_todo_def)

theorem not_found_unchanged_witness:
  "session_get demo_store 999 = None
   \<and> update_todo 999 \<lparr>tu_title = Some ''Updated'', tu_description = None, tu_completed = None\<rparr>
        t_c demo_store = (None, demo_store)
   \<and> toggle_todo_completion 999 t_c demo_store = (None, demo_store)
   \<and> delete_todo 999 demo_store = (False, demo_store)"
proof -
  have h: "session_get demo_store 999 = None"
    by (simp add: session_get_def sample_defs)
  show ?thesis
    using h not_found_unchanged [OF h, of
        "\<lparr>tu_title = Some ''Updated'', tu_description = None, tu_completed = None\<rparr>" t_c]
    by simp
qed

text \<open>
  C8. \<open>get_todo_by_id\<close> returns \<open>None\<close> for every id that no row has, whatever the id;
  0 is such an id in every table the storage layer keeps, so in every table a run of the
  service reaches from the empty one.
\<close>

theorem get_todo_by_id_absent:
  "(session_get s i = None \<longrightarrow> get_todo_by_id i s = None)
   \<and> (store_ok s \<longrightarrow> get_todo_by_id 0 s = None)
   \<and> get_todo_by_id 0 (run ops empty_store) = None"
proof -
  have zero: "session_get u 0 = None" if "store_ok u" for u
    using that by (fastforce simp: session_get_None store_ok_iff)
  have "store_ok (run ops empty_store)"
    by (rule store_ok_run [OF store_ok_empty])
  then show ?thesis
    using zero by (simp add: get_todo_by_id_def)
qed

theorem get_todo_by_id_absent_witness:
  "session_get demo_store 999 = None \<and> get_todo_by_id 999 demo_store = None
   \<and> store_ok demo_store \<and> get_todo_by_id 0 demo_store = None"
proof -
  have h: "session_get demo_store 999 = None"
    by (simp add: session_get_def sample_defs)
  have ok: "store_ok demo_store"
    by (simp add: store_ok_def sample_defs)
  show ?thesis
    using h ok get_todo_by_id_absent [of demo_store 999] by simp
qed

section \<open>Updating\<close>

text \<open>
  C2. When a row \<open>todo\<close> has the id, \<open>update_todo\<close> stores and returns that row with
  exactly the fields present in the request replaced and \<open>updated_at\<close> set to the
  reading of the clock: a field left out keeps its value, and the id and \<open>created_at\<close>
  are kept. The response has all six fields of the stored row: the id, the title,
  description and completion after the update, \<open>created_at\<close> as it was and
  \<open>updated_at\<close> the reading, both in ISO format. Every other row is as before. When
  no row has the id, it returns \<open>None\<close>.
\<close>

theorem update_todo_fields:
  "(session_get s i = Some todo \<longrightarrow>
      (let todo' = todo\<lparr>title := (case tu_title todo_data of None \<Rightarrow> title todo | Some x \<Rightarrow> x),
                         description := (case tu_description todo_data of
                                           None \<Rightarrow> description todo | Some x \<Rightarrow> x),
                         completed := (case tu_completed todo_data of
                                         None \<Rightarrow> completed todo | Some x \<Rightarrow> x),
                         updated_at := now\<rparr>;
           s' = snd (update_todo i todo_data now s)
       in fst (update_todo i todo_data now s) = Some (from_todo todo')
          \<and> fst (update_todo i todo_data now s)
              = Some \<lparr>r_id = i,
                       r_title = (case tu_title todo_data of None \<Rightarrow> title todo | Some x \<Rightarrow> x),
                       r_description = (case tu_description todo_data of
                                          None \<Rightarrow> description todo | Some x \<Rightarrow> x),
                       r_completed = (case tu_completed todo_data of
                                        None \<Rightarrow> completed todo | Some x \<Rightarrow> x),
                       r_created_at = isoformat (created_at todo),
                       r_updated_at = isoformat now\<rparr>
          \<and> session_get s' i = Some todo'
          \<and> (\<forall>j. j \<noteq> i \<longrightarrow> session_get s' j = session_get s j)
          \<and> map todo_id (rows s') = map todo_id (rows s)
          \<and> next_id s' = next_id s))
   \<and> (session_get s i = None \<longrightarrow> fst (update_todo i todo_data now s) = None)"
proof -
  have found: ?thesis if g: "session_get s i = Some todo"
  proof -
    define todo' where "todo' = apply_update todo_data now todo"
    have id': "todo_id todo' = Some i"
      using session_get_id [OF g] by (simp add: todo'_def)
    have shape: "todo' = todo\<lparr>title := (case tu_title todo_data of None \<Rightarrow> title todo | Some x \<Rightarrow> x),
                         description := (case tu_description todo_data of
                                           None \<Rightarrow> description todo | Some x \<Rightarrow> x),
                         completed := (case tu_completed todo_data of
                                         None \<Rightarrow> completed todo | Some x \<Rightarrow> x),
                         updated_at := now\<rparr>"
      by (simp add: todo'_def apply_update_def Let_def split: option.splits)
    have res: "update_todo i todo_data now s
        = (Some (from_todo todo'), snd (session_update s todo'))"
      using g by (simp add: update_todo_def todo'_def session_update_def)
    have a: "session_get (snd (session_update s todo')) i = Some todo'"
      by (rule session_update_get [OF g id'])
    have b: "\<forall>j. j \<noteq> i \<longrightarrow> session_get (snd (session_update s todo')) j = session_get s j"
      using session_update_get_other [OF id'] by blast
    have c: "map todo_id (rows (snd (session_update s todo'))) = map todo_id (rows s)"
      and d: "next_id (snd (session_update s todo')) = next_id s"
      using session_update_ids [OF g id'] by blast+
    have resp: "from_todo todo'
        = \<lparr>r_id = i,
           r_title = (case tu_title todo_data of None \<Rightarrow> title todo | Some x \<Rightarrow> x),
           r_description = (case tu_description todo_data of
                              None \<Rightarrow> description todo | Some x \<Rightarrow> x),
           r_completed = (case tu_completed todo_data of
                            None \<Rightarrow> completed todo | Some x \<Rightarrow> x),
           r_created_at = isoformat (created_at todo),
           r_updated_at = isoformat now\<rparr>"
      using session_get_id [OF g] unfolding shape by (simp add: from_todo_def)
    show ?thesis
      unfolding Let_def shape [symmetric] res using g a b c d resp by simp
  qed
  have absent: ?thesis if "session_get s i = None"
    using that by (simp add: update_todo_def)
  show ?thesis
    using found absent by (cases "session_get s i") auto
qed

theorem update_todo_fields_witness:
  "session_get demo_store 1 = Some todo1
   \<and> fst (update_todo 1 \<lparr>tu_title = None, tu_description = None, tu_completed = Some True\<rparr>
            t_c demo_store)
       = Some (from_todo (todo1\<lparr>completed := True, updated_at := t_c\<rparr>))
   \<and> fst (update_todo 1 \<lparr>tu_title = None, tu_description = None, tu_completed = Some True\<rparr>
            t_c demo_store)
       = Some \<lparr>r_id = 1, r_title = ''Original'', r_description = ''Original desc'',
                r_completed = True, r_created_at = ''2024-01-15T10:30:00'',
                r_updated_at = ''2024-01-15T10:30:07.250000''\<rparr>
   \<and> session_get
         (snd (update_todo 1 \<lparr>tu_title = None, tu_description = None, tu_completed = Some True\<rparr>
                 t_c demo_store)) 1
       = Some (todo1\<lparr>completed := True, updated_at := t_c\<rparr>)
   \<and> session_get demo_store 999 = None
   \<and> fst (update_todo 999 \<lparr>tu_title = Some ''Updated'', tu_description = None,
                            tu_completed = None\<rparr> t_c demo_store) = None"
proof -
  have h1: "session_get demo_store 1 = Some todo1"
    by (simp add: session_get_def sample_defs)
  have h2: "session_get demo_store 999 = None"
    by (simp add: session_get_def sample_defs)
  have same: "todo1\<lparr>title := title todo1, description := description todo1,
                   completed := True, updated_at := t_c\<rparr>
      = todo1\<lparr>completed := True, updated_at := t_c\<rparr>"
    by simp
  have found: "fst (update_todo 1
          \<lparr>tu_title = None, tu_description = None, tu_completed = Some True\<rparr> t_c demo_store)
        = Some (from_todo (todo1\<lparr>completed := True, updated_at := t_c\<rparr>))
      \<and> fst (update_todo 1
          \<lparr>tu_title = None, tu_description = None, tu_completed = Some True\<rparr> t_c demo_store)
        = Some \<lparr>r_id = 1, r_title = title todo1, r_description = description todo1,
                 r_completed = True, r_created_at = isoformat (created_at todo1),
                 r_updated_at = isoformat t_c\<rparr>
      \<and> session_get (snd (update_todo 1
          \<lparr>tu_title = None, tu_description = None, tu_completed = Some True\<rparr> t_c demo_store)) 1
        = Some (todo1\<lparr>completed := True, updated_at := t_c\<rparr>)"
    using h1
      update_todo_fields [where s = demo_store and i = 1 and todo = todo1 and now = t_c
        and todo_data = "\<lparr>tu_title = None, tu_description = None, tu_completed = Some True\<rparr>"]
    by (simp add: Let_def same) (simp add: from_todo_def todo1_def)
  have fields: "\<lparr>r_id = 1, r_title = title todo1, r_description = description todo1,
        r_completed = True, r_created_at = isoformat (created_at todo1),
        r_updated_at = isoformat t_c\<rparr>
      = \<lparr>r_id = 1, r_title = ''Original'', r_description = ''Original desc'',
         r_completed = True, r_created_at = ''2024-01-15T10:30:00'',
         r_updated_at = ''2024-01-15T10:30:07.250000''\<rparr>"
    by (simp add: todo1_def isoformat_eval t_a_def t_c_def)
  have absent: "fst (update_todo 999 \<lparr>tu_title = Some ''Updated'', tu_description = None,
      tu_completed = None\<rparr> t_c demo_store) = None"
    using h2
      update_todo_fields [where s = demo_store and i = 999 and todo = todo1 and now = t_c
        and todo_data = "\<lparr>tu_title = Some ''Updated'', tu_description = None,
                          tu_completed = None\<rparr>"]
    by simp
  show ?thesis
    using h1 h2 found [unfolded fields] absent by blast
qed

section \<open>Toggling\<close>

text \<open>
  C5. When a row has the id, two calls of \<open>toggle_todo_completion\<close> one after the
  other both succeed, and after the second \<open>completed\<close> is what it was before the first,
  in the response and in the table; \<open>updated_at\<close> is the reading of the second call.
\<close>

theorem toggle_twice:
  assumes "session_get s i = Some todo"
  shows "let (r1, s1) = toggle_todo_completion i now1 s;
             (r2, s2) = toggle_todo_completion i now2 s1
         in r1 = Some (from_todo (todo\<lparr>completed := \<not> completed todo, updated_at := now1\<rparr>))
            \<and> r2 = Some (from_todo (todo\<lparr>updated_at := now2\<rparr>))
            \<and> session_get s2 i = Some (todo\<lparr>updated_at := now2\<rparr>)
            \<and> map_option completed (session_get s2 i) = Some (completed todo)
            \<and> map_option r_completed r2 = Some (completed todo)"
proof -
  define t1 where "t1 = todo\<lparr>completed := \<not> completed todo, updated_at := now1\<rparr>"
  define t2 where "t2 = t1\<lparr>completed := \<not> completed t1, updated_at := now2\<rparr>"
  define s1 where "s1 = snd (session_update s t1)"
  define s2 where "s2 = snd (session_update s1 t2)"
  have id0: "todo_id todo = Some i"
    by (rule session_get_id [OF assms])
  have id1: "todo_id t1 = Some i" and id2: "todo_id t2 = Some i"
    using id0 by (simp_all add: t1_def t2_def)
  have first: "toggle_todo_completion i now1 s = (Some (from_todo t1), s1)"
    using assms by (simp add: toggle_todo_completion_def session_update_def t1_def s1_def)
  have g1: "session_get s1 i = Some t1"
    unfolding s1_def by (rule session_update_get [OF assms id1])
  have second: "toggle_todo_completion i now2 s1 = (Some (from_todo t2), s2)"
    using g1 by (simp add: toggle_todo_completion_def session_update_def t2_def s2_def)
  have g2: "session_get s2 i = Some t2"
    unfolding s2_def by (rule session_update_get [OF g1 id2])
  have restored: "t2 = todo\<lparr>updated_at := now2\<rparr>"
    by (simp add: t2_def t1_def)
  show ?thesis
    using g2 by (simp add: first second restored t1_def from_todo_sel)
qed

theorem toggle_twice_witness:
  "session_get demo_store 2 = Some todo2
   \<and> (let (r1, s1) = toggle_todo_completion 2 t_b demo_store;
           (r2, s2) = toggle_todo_completion 2 t_c s1
       in r1 = Some (from_todo (todo2\<lparr>completed := \<not> completed todo2, updated_at := t_b\<rparr>))
          \<and> r2 = Some (from_todo (todo2\<lparr>updated_at := t_c\<rparr>))
          \<and> session_get s2 2 = Some (todo2\<lparr>updated_at := t_c\<rparr>)
          \<and> map_option completed (session_get s2 2) = Some (completed todo2)
          \<and> map_option r_completed r2 = Some (completed todo2))"
proof -
  have h: "session_get demo_store 2 = Some todo2"
    by (simp add: session_get_def sample_defs)
  show ?thesis
    using h toggle_twice [OF h, of t_b t_c] by simp
qed

section \<open>Deleting\<close>

lemma step_keeps_absent:
  assumes "session_get s i = None" and "i < next_id s"
  shows "session_get (step x s) i = None \<and> i < next_id (step x s)"
proof (cases x)
  case (Create todo_data now1 now2)
  then show ?thesis
    using assms by (auto simp: session_get_None create_todo_def session_insert_def Let_def)
next
  case (Update j todo_data now)
  show ?thesis
  proof (cases "session_get s j")
    case None
    then show ?thesis using assms Update by (simp add: update_todo_def)
  next
    case (Some t)
    then have "j \<noteq> i" using assms by auto
    moreover have "todo_id (apply_update todo_data now t) = Some j"
      using session_get_id [OF Some] by simp
    ultimately show ?thesis
      using assms Update Some session_update_get_other [of "apply_update todo_data now t" j i s]
        session_update_ids(2) [OF Some, of "apply_update todo_data now t"]
      by (simp add: update_todo_def split_def Let_def)
  qed
next
  case (Toggle j now)
  show ?thesis
  proof (cases "session_get s j")
    case None
    then show ?thesis using assms Toggle by (simp add: toggle_todo_completion_def)
  next
    case (Some t)
    then have "j \<noteq> i" using assms by auto
    moreover have "todo_id (t\<lparr>completed := \<not> completed t, updated_at := now\<rparr>) = Some j"
      using session_get_id [OF Some] by simp
    ultimately show ?thesis
      using assms Toggle Some
        session_update_get_other [of "t\<lparr>completed := \<not> completed t, updated_at := now\<rparr>" j i s]
        session_update_ids(2) [OF Some, of "t\<lparr>completed := \<not> completed t, updated_at := now\<rparr>"]
      by (simp add: toggle_todo_completion_def split_def Let_def)
  qed
next
  case (Delete j)
  show ?thesis
  proof (cases "session_get s j")
    case None
    then show ?thesis using assms Delete by (simp add: delete_todo_def)
  next
    case (Some t)
    then show ?thesis
      using assms Delete
      by (auto simp: delete_todo_def session_get_None session_delete_def)
  qed
qed

lemma run_keeps_absent:
  "session_get s i = None \<Longrightarrow> i < next_id s \<Longrightarrow> session_get (run ops s) i = None"
proof (induction ops arbitrary: s)
  case Nil
  then show ?case by simp
next
  case (Cons x ops)
  then show ?case using step_keeps_absent [of s i x] by simp
qed

lemma store_ok_below:
  assumes "store_ok s" and "session_get s i = Some t"
  shows "i < next_id s"
proof -
  have "t \<in> set (rows s)"
    using assms(2) by (auto simp: session_get_def find_Some_iff)
  then show ?thesis
    using assms(1) session_get_id [OF assms(2)] by (auto simp: store_ok_def list_all_iff)
qed

text \<open>
  C6. \<open>delete_todo\<close> returns \<open>True\<close> exactly when a row has the id, and \<open>False\<close>
  otherwise; it never fails. When it returns \<open>True\<close> the row is gone and the others
  remain: \<open>get_todo_by_id\<close> on the id returns \<open>None\<close> and a second \<open>delete_todo\<close> returns
  \<open>False\<close>, at once and, in a table the storage layer keeps, after any further calls of
  the service.
\<close>

theorem delete_todo_once:
  "fst (delete_todo i s) = (session_get s i \<noteq> None)
   \<and> (session_get s i \<noteq> None \<longrightarrow>
        (let s' = snd (delete_todo i s)
         in rows s' = filter (\<lambda>u. todo_id u \<noteq> Some i) (rows s)
            \<and> get_todo_by_id i s' = None
            \<and> fst (delete_todo i s') = False
            \<and> (store_ok s \<longrightarrow>
                 (\<forall>ops. get_todo_by_id i (run ops s') = None
                        \<and> fst (delete_todo i (run ops s')) = False))))"
proof (cases "session_get s i")
  case None
  then show ?thesis by (simp add: delete_todo_def)
next
  case (Some t)
  define s' where "s' = session_delete s t"
  have id: "todo_id t = Some i"
    by (rule session_get_id [OF Some])
  have res: "delete_todo i s = (True, s')"
    using Some by (simp add: delete_todo_def s'_def)
  have rows': "rows s' = filter (\<lambda>u. todo_id u \<noteq> Some i) (rows s)"
    by (simp add: s'_def session_delete_def id)
  have gone: "session_get s' i = None"
    unfolding s'_def by (rule session_delete_get [OF id])
  have later: "session_get (run ops s') i = None" if "store_ok s" for ops
  proof -
    have "i < next_id s'"
      using store_ok_below [OF that Some] by (simp add: s'_def session_delete_def)
    then show ?thesis by (rule run_keeps_absent [OF gone])
  qed
  have absent: "get_todo_by_id i u = None \<and> fst (delete_todo i u) = False"
    if "session_get u i = None" for u
    using that by (simp add: get_todo_by_id_def delete_todo_def)
  show ?thesis
    using Some rows' absent [OF gone] absent [OF later]
    by (simp add: res Let_def)
qed

theorem delete_todo_once_witness:
  "session_get demo_store 1 \<noteq> None \<and> store_ok demo_store
   \<and> fst (delete_todo 1 demo_store) = True
   \<and> rows (snd (delete_todo 1 demo_store)) = [todo2]
   \<and> get_todo_by_id 1 (snd (delete_todo 1 demo_store)) = None
   \<and> fst (delete_todo 1 (snd (delete_todo 1 demo_store))) = False
   \<and> get_todo_by_id 1
        (run [Create \<lparr>tc_title = ''Third'', tc_description = []\<rparr> t_c t_c, Toggle 2 t_c]
           (snd (delete_todo 1 demo_store))) = None
   \<and> session_get demo_store 999 = None
   \<and> fst (delete_todo 999 demo_store) = False"
proof -
  have h: "session_get demo_store 1 \<noteq> None"
    by (simp add: session_get_def sample_defs)
  have ok: "store_ok demo_store"
    by (simp add: store_ok_def sample_defs)
  have h2: "session_get demo_store 999 = None"
    by (simp add: session_get_def sample_defs)
  have r: "filter (\<lambda>u. todo_id u \<noteq> Some 1) (rows demo_store) = [todo2]"
    by (simp add: sample_defs)
  have found: "fst (delete_todo 1 demo_store) = True
      \<and> rows (snd (delete_todo 1 demo_store)) = [todo2]
      \<and> get_todo_by_id 1 (snd (delete_todo 1 demo_store)) = None
      \<and> fst (delete_todo 1 (snd (delete_todo 1 demo_store))) = False
      \<and> (\<forall>ops. get_todo_by_id 1 (run ops (snd (delete_todo 1 demo_store))) = None)"
    using h ok delete_todo_once [of 1 demo_store] by (simp add: Let_def r)
  then have after: "get_todo_by_id 1
        (run [Create \<lparr>tc_title = ''Third'', tc_description = []\<rparr> t_c t_c, Toggle 2 t_c]
           (snd (delete_todo 1 demo_store))) = None"
    by blast
  have absent: "fst (delete_todo 999 demo_store) = False"
    using h2 delete_todo_once [of 999 demo_store] by simp
  show ?thesis
    using h ok h2 found after absent by blast
qed

section \<open>Creating\<close>

lemma find_append_new:
  "\<forall>t \<in> set xs. todo_id t \<noteq> Some k \<Longrightarrow> todo_id n = Some k \<Longrightarrow>
   find (\<lambda>t. todo_id t = Some k) (xs @ [n]) = Some n"
  by (induction xs) auto

text \<open>
  C3, amended. In a table the storage layer keeps (every reachable table is one),
  \<open>create_todo\<close> returns a response whose id is the next identifier, which is positive,
  with \<open>completed\<close> false, the title and description of the request, \<open>created_at\<close> the
  first reading of the clock and \<open>updated_at\<close> the second: the two are equal when the two
  readings are. The row is stored under that id.
\<close>

theorem create_todo_response:
  assumes "store_ok s"
  shows "let (r, s') = create_todo todo_data now1 now2 s
         in r_id r = next_id s \<and> 0 < r_id r \<and> \<not> r_completed r
            \<and> r_title r = tc_title todo_data \<and> r_description r = tc_description todo_data
            \<and> r_created_at r = isoformat now1 \<and> r_updated_at r = isoformat now2
            \<and> (now1 = now2 \<longrightarrow> r_created_at r = r_updated_at r)
            \<and> get_todo_by_id (r_id r) s' = Some r
            \<and> store_ok s'"
proof -
  define todo where "todo = \<lparr>todo_id = Some (next_id s), title = tc_title todo_data,
      description = tc_description todo_data, completed = False,
      created_at = now1, updated_at = now2\<rparr>"
  define s' where "s' = s\<lparr>rows := rows s @ [todo], next_id := next_id s + 1\<rparr>"
  have res: "create_todo todo_data now1 now2 s = (from_todo todo, s')"
    by (simp add: create_todo_def session_insert_def Let_def todo_def s'_def)
  have pos: "0 < next_id s"
    using assms by (simp add: store_ok_def)
  have fresh: "\<forall>t \<in> set (rows s). todo_id t \<noteq> Some (next_id s)"
    using assms by (fastforce simp: store_ok_iff)
  have stored: "session_get s' (next_id s) = Some todo"
    using find_append_new [OF fresh, of todo] by (simp add: session_get_def s'_def todo_def)
  have ok': "store_ok s'"
    using store_ok_insert [OF assms, of "\<lparr>todo_id = None, title = tc_title todo_data,
      description = tc_description todo_data, completed = False,
      created_at = now1, updated_at = now2\<rparr>"]
    by (simp add: session_insert_def Let_def s'_def todo_def)
  have rid: "r_id (from_todo todo) = next_id s"
    by (simp add: from_todo_def todo_def)
  show ?thesis
    using pos stored ok' rid
    by (simp add: res get_todo_by_id_def from_todo_sel) (simp add: todo_def)
qed

theorem create_todo_response_witness:
  "store_ok demo_store
   \<and> (let (r, s') = create_todo \<lparr>tc_title = ''Test Todo'', tc_description = ''Test description''\<rparr>
                       t_b t_c demo_store
      in r_id r = 3 \<and> 0 < r_id r \<and> \<not> r_completed r
         \<and> r_title r = ''Test Todo'' \<and> r_description r = ''Test description''
         \<and> r_created_at r = isoformat t_b \<and> r_updated_at r = isoformat t_c
         \<and> get_todo_by_id (r_id r) s' = Some r
         \<and> store_ok s')"
proof -
  have ok: "store_ok demo_store"
    by (simp add: store_ok_def sample_defs)
  have n: "next_id demo_store = 3"
    by (simp add: demo_store_def)
  have moved: "t_b \<noteq> t_c"
    by (simp add: t_b_def t_c_def)
  show ?thesis
    using ok create_todo_response [OF ok, of
        "\<lparr>tc_title = ''Test Todo'', tc_description = ''Test description''\<rparr>" t_b t_c]
    by (simp add: n moved split_def)
qed

text \<open>
  The claim as the spec states it fails: the clock is read twice, and when it moves
  between the two readings the response has two different timestamps.
\<close>

theorem create_todo_timestamps_counterexample:
  "store_ok empty_store
   \<and> r_created_at (fst (create_todo \<lparr>tc_title = ''Test Todo'', tc_description = []\<rparr>
                           t_a t_b empty_store)) = ''2024-01-15T10:30:00''
   \<and> r_updated_at (fst (create_todo \<lparr>tc_title = ''Test Todo'', tc_description = []\<rparr>
                           t_a t_b empty_store)) = ''2024-01-15T10:30:00.000001''
   \<and> r_created_at (fst (create_todo \<lparr>tc_title = ''Test Todo'', tc_description = []\<rparr>
                           t_a t_b empty_store))
     \<noteq> r_updated_at (fst (create_todo \<lparr>tc_title = ''Test Todo'', tc_description = []\<rparr>
                             t_a t_b empty_store))"
  using store_ok_empty
  by (simp add: create_todo_def session_insert_def Let_def from_todo_def
      empty_store_def isoformat_eval t_a_def t_b_def)

section \<open>Validation\<close>

text \<open>
  C1, amended. Creating is refused with \<open>ValidationError\<close> exactly when the title has
  more than 200 characters or the description more than 1000, and the refusal is that of
  the request, raised before the service is entered; every other request is served, so
  200 and 1000 characters are accepted. A title that is empty after trimming is within
  the limit and is served like any other: it is the form handler that turns a blank
  title away, with a warning and without touching the table.
\<close>

theorem create_validation:
  "(create t d now1 now2 s = Inl ValidationError \<longleftrightarrow> 200 < length t \<or> 1000 < length d)
   \<and> (200 < length t \<or> 1000 < length d \<longrightarrow> new_TodoCreate t d = Inl ValidationError)
   \<and> (length t \<le> 200 \<and> length d \<le> 1000 \<longrightarrow>
        create t d now1 now2 s
          = Inr (create_todo \<lparr>tc_title = t, tc_description = d\<rparr> now1 now2 s))
   \<and> (strip tv = [] \<longrightarrow> add_new_todo tv dv now1 now2 s = (warning, s))"
  by (auto simp: create_def new_TodoCreate_def add_new_todo_def Let_def)

theorem create_validation_witness:
  "create (replicate 201 CHR ''A'') [] t_a t_a empty_store = Inl ValidationError
   \<and> create ''Test'' (replicate 1001 CHR ''B'') t_a t_a empty_store = Inl ValidationError
   \<and> create (replicate 200 CHR ''A'') (replicate 1000 CHR ''B'') t_a t_a empty_store
       = Inr (create_todo \<lparr>tc_title = replicate 200 CHR ''A'',
                            tc_description = replicate 1000 CHR ''B''\<rparr> t_a t_a empty_store)
   \<and> strip ''  '' = []
   \<and> add_new_todo ''  '' ''Test description'' t_a t_a empty_store = (warning, empty_store)"
proof -
  have blank: "strip ''  '' = []"
    by (simp add: strip_def isspace_def)
  show ?thesis
    using blank
      create_validation [of "replicate 201 CHR ''A''" "[]" t_a t_a empty_store]
      create_validation [of "''Test''" "replicate 1001 CHR ''B''" t_a t_a empty_store]
      create_validation [of "replicate 200 CHR ''A''" "replicate 1000 CHR ''B''" t_a t_a
        empty_store "''  ''" "''Test description''"]
    by simp
qed

text \<open>
  The claim as the spec states it fails: a title of two blanks is empty after trimming,
  and creating with it succeeds and stores the todo.
\<close>

theorem create_blank_title_counterexample:
  "strip ''  '' = []
   \<and> create ''  '' [] t_a t_a empty_store
     = Inr (\<lparr>r_id = 1, r_title = ''  '', r_description = [], r_completed = False,
              r_created_at = ''2024-01-15T10:30:00'', r_updated_at = ''2024-01-15T10:30:00''\<rparr>,
            \<lparr>rows = [\<lparr>todo_id = Some 1, title = ''  '', description = [], completed = False,
                       created_at = t_a, updated_at = t_a\<rparr>],
               next_id = 2\<rparr>)"
  by (simp add: strip_def isspace_def create_def new_TodoCreate_def create_todo_def
      session_insert_def Let_def from_todo_def empty_store_def isoformat_eval t_a_def)

section \<open>Timestamps of the rows\<close>

lemma apply_update_stamps [simp]:
  "created_at (apply_update u now t) = created_at t"
  "updated_at (apply_update u now t) = now"
  by (simp_all add: apply_update_def Let_def split: option.splits)








section \<open>Listing\<close>

lemma mset_order_by_desc_created_at: "mset (order_by_desc_created_at tie ts) = mset ts"
  by (simp add: order_by_desc_created_at_def)

lemma descending_order_by_desc_created_at: "descending (order_by_desc_created_at tie ts)"
proof -
  have "sorted (map (\<lambda>t. (dt_key (created_at t), tie t))
      (sort_key (\<lambda>t. (dt_key (created_at t), tie t)) ts))"
    by (rule sorted_sort_key)
  then have "sorted_wrt (\<lambda>a b. (dt_key (created_at a), tie a) \<le> (dt_key (created_at b), tie b))
      (sort_key (\<lambda>t. (dt_key (created_at t), tie t)) ts)"
    by (simp add: sorted_map)
  then have "sorted_wrt (\<lambda>a b. dt_le (created_at a) (created_at b))
      (sort_key (\<lambda>t. (dt_key (created_at t), tie t)) ts)"
    by (rule sorted_wrt_mono_rel [rotated]) (auto simp: dt_le_def)
  then show ?thesis
    by (simp add: descending_def order_by_desc_created_at_def sorted_wrt_rev)
qed

text \<open>
  C4, amended. Whatever rank the engine gives the rows, \<open>get_all_todos\<close> returns the
  responses of all rows, each once, in an order that descends in \<open>created_at\<close>; on the
  empty table it returns the empty list. The order of rows with the same \<open>created_at\<close>
  is the engine's.
\<close>

theorem get_all_todos_descending:
  "(\<exists>ts. get_all_todos tie s = map from_todo ts
          \<and> mset ts = mset (rows s) \<and> descending ts)
   \<and> length (get_all_todos tie s) = length (rows s)
   \<and> get_all_todos tie empty_store = []"
proof -
  have "length (order_by_desc_created_at tie (rows s)) = length (rows s)"
    using mset_order_by_desc_created_at [of tie "rows s"] by (rule mset_eq_length)
  moreover have "order_by_desc_created_at tie [] = []"
    by (simp add: order_by_desc_created_at_def)
  ultimately show ?thesis
    using mset_order_by_desc_created_at [of tie "rows s"]
      descending_order_by_desc_created_at [of tie "rows s"]
    by (auto simp: get_all_todos_def empty_store_def)
qed

theorem get_all_todos_descending_witness:
  "listing_store
     = run [Create \<lparr>tc_title = ''Original'', tc_description = ''Original desc''\<rparr> t_a t_a,
            Create \<lparr>tc_title = ''Second'', tc_description = []\<rparr> t_a t_a,
            Toggle 2 t_b,
            Create \<lparr>tc_title = ''Third'', tc_description = []\<rparr> t_c t_c] empty_store
   \<and> \<not> descending (rows listing_store)
   \<and> get_all_todos scan_rank listing_store = [from_todo todo3, from_todo todo1, from_todo todo2]
   \<and> (\<exists>ts. get_all_todos scan_rank listing_store = map from_todo ts
            \<and> mset ts = mset (rows listing_store) \<and> descending ts)
   \<and> length (get_all_todos scan_rank listing_store) = length (rows listing_store)
   \<and> get_all_todos scan_rank empty_store = []"
proof -
  have reached: "listing_store
     = run [Create \<lparr>tc_title = ''Original'', tc_description = ''Original desc''\<rparr> t_a t_a,
            Create \<lparr>tc_title = ''Second'', tc_description = []\<rparr> t_a t_a,
            Toggle 2 t_b,
            Create \<lparr>tc_title = ''Third'', tc_description = []\<rparr> t_c t_c] empty_store"
    by (simp add: create_todo_def toggle_todo_completion_def session_get_def
        session_insert_def session_update_def Let_def sample_defs listing_store_def todo3_def)
  have unsorted: "\<not> descending (rows listing_store)"
    by (simp add: descending_def listing_store_def todo1_def todo2_def todo3_def
        dt_le_def dt_key_def t_a_def t_c_def)
  have listed: "get_all_todos scan_rank listing_store
      = [from_todo todo3, from_todo todo1, from_todo todo2]"
    by (simp add: get_all_todos_def order_by_desc_created_at_def listing_store_def
        sort_key_def scan_rank_def todo1_def todo2_def todo3_def dt_key_def t_a_def t_c_def)
  show ?thesis
    using reached unsorted listed get_all_todos_descending [of scan_rank listing_store]
    by blast
qed

text \<open>
  The claim as the spec states it fails: the table below is reached by two creations at
  the same reading of the clock, and an engine that returns rows of equal
  \<open>created_at\<close> in insertion order lists the older todo first, where the spec's listing
  has the newer one first.
\<close>

theorem get_all_todos_ties_counterexample:
  "created_store
     = run [Create \<lparr>tc_title = ''Original'', tc_description = ''Original desc''\<rparr> t_a t_a,
            Create \<lparr>tc_title = ''Second'', tc_description = []\<rparr> t_a t_a] empty_store
   \<and> created_at todo1 = created_at todo2_created
   \<and> get_all_todos scan_rank created_store = [from_todo todo1, from_todo todo2_created]
   \<and> listAll_spec created_store = [from_todo todo2_created, from_todo todo1]
   \<and> get_all_todos scan_rank created_store \<noteq> listAll_spec created_store"
proof -
  have reached: "created_store
     = run [Create \<lparr>tc_title = ''Original'', tc_description = ''Original desc''\<rparr> t_a t_a,
            Create \<lparr>tc_title = ''Second'', tc_description = []\<rparr> t_a t_a] empty_store"
    by (simp add: create_todo_def session_insert_def Let_def created_store_def todo1_def
        todo2_created_def empty_store_def)
  have tie: "created_at todo1 = created_at todo2_created"
    by (simp add: todo1_def todo2_created_def)
  have code: "get_all_todos scan_rank created_store = [from_todo todo1, from_todo todo2_created]"
    by (simp add: get_all_todos_def order_by_desc_created_at_def created_store_def
        sort_key_def scan_rank_def todo1_def todo2_created_def)
  have spec: "listAll_spec created_store = [from_todo todo2_created, from_todo todo1]"
    by (simp add: listAll_spec_def created_store_def sort_key_def tie)
  have "r_id (from_todo todo1) \<noteq> r_id (from_todo todo2_created)"
    by (simp add: from_todo_def todo1_def todo2_created_def)
  then have "from_todo todo1 \<noteq> from_todo todo2_created"
    by auto
  then show ?thesis
    using reached tie code spec by simp
qed

section \<open>Every order of the ties is some engine's\<close>

lemma rank_in_le: "rank_in ts t \<le> int (length ts)"
  by (simp add: rank_in_def length_dropWhile_le)

lemma rank_in_Cons:
  "rank_in (x # xs) t = (if x = t then 1 + int (length xs) else rank_in xs t)"
  by (simp add: rank_in_def)

lemma rank_in_descends:
  "distinct ts \<Longrightarrow> sorted_wrt (\<lambda>a b. rank_in ts b < rank_in ts a) ts"
proof (induction ts)
  case Nil
  then show ?case by simp
next
  case (Cons x xs)
  have below: "rank_in (x # xs) y < rank_in (x # xs) x" if "y \<in> set xs" for y
    using that Cons.prems rank_in_le [of xs y] by (auto simp: rank_in_Cons)
  have ih: "sorted_wrt (\<lambda>a b. rank_in xs b < rank_in xs a) xs"
    using Cons by simp
  have "sorted_wrt (\<lambda>a b. rank_in (x # xs) b < rank_in (x # xs) a) xs"
  proof (rule sorted_wrt_mono_rel [OF _ ih])
    fix a b
    assume "a \<in> set xs" and "b \<in> set xs" and "rank_in xs b < rank_in xs a"
    then show "rank_in (x # xs) b < rank_in (x # xs) a"
      using Cons.prems by (auto simp: rank_in_Cons)
  qed
  then show ?case
    using below by simp
qed

lemma rank_in_inj:
  "distinct ts \<Longrightarrow> a \<in> set ts \<Longrightarrow> b \<in> set ts \<Longrightarrow> rank_in ts a = rank_in ts b \<Longrightarrow> a = b"
proof (induction ts)
  case Nil
  then show ?case by simp
next
  case (Cons x xs)
  then show ?case
    using rank_in_le [of xs a] rank_in_le [of xs b]
    by (auto simp: rank_in_Cons split: if_splits)
qed

lemma filter_only:
  "distinct xs \<Longrightarrow> t \<in> set xs \<Longrightarrow> (\<And>x. x \<in> set xs \<Longrightarrow> P x \<longleftrightarrow> x = t) \<Longrightarrow> filter P xs = [t]"
proof (induction xs)
  case Nil
  then show ?case by simp
next
  case (Cons x xs)
  show ?case
  proof (cases "x = t")
    case True
    then have "filter P xs = []"
      using Cons.prems by (auto simp: filter_empty_conv)
    then show ?thesis using True Cons.prems by simp
  next
    case False
    then show ?thesis using Cons by auto
  qed
qed

text \<open>
  The rank covers every engine: any order of the rows that descends in \<open>created_at\<close>
  is what the query returns under the rank that numbers the rows along that order.
\<close>

lemma every_listing_has_rank:
  assumes perm: "mset ts = mset rs" and desc: "descending ts" and dist: "distinct ts"
  shows "order_by_desc_created_at (rank_in ts) rs = ts"
proof -
  define k where "k = (\<lambda>t. (dt_key (created_at t), rank_in ts t))"
  have drs: "distinct rs"
    using perm dist by (metis mset_eq_imp_distinct_iff)
  have sets: "set rs = set ts"
    using perm by (metis mset_eq_setD)
  have inj: "k a = k b \<longleftrightarrow> b = a" if "a \<in> set ts" and "b \<in> set ts" for a b
    using that rank_in_inj [OF dist] by (auto simp: k_def)
  have "sorted_wrt (\<lambda>a b. k b \<le> k a) ts"
    using desc rank_in_descends [OF dist]
    by (auto simp: sorted_wrt_iff_nth_less descending_def dt_le_def k_def less_le)
  then have sorted: "sorted (map k (rev ts))"
    by (simp add: sorted_map sorted_wrt_rev)
  have same: "filter (\<lambda>x. k t = k x) (rev ts) = filter (\<lambda>x. k t = k x) rs"
    if "t \<in> set (rev ts)" for t
  proof -
    have "filter (\<lambda>x. k t = k x) (rev ts) = [t]"
      using that dist inj by (intro filter_only) auto
    moreover have "filter (\<lambda>x. k t = k x) rs = [t]"
      using that drs sets inj by (intro filter_only) auto
    ultimately show ?thesis by simp
  qed
  have "sort_key k rs = rev ts"
    using perm same sorted by (intro properties_for_sort_key) simp_all
  then show ?thesis
    by (simp add: order_by_desc_created_at_def k_def)
qed

end
